theory Spec2Isabelle
  imports Complex_Main "HOL-Library.AList"
begin

section \<open>Folktale documentation compiler: tools/markdown-to-mm.js\<close>

text \<open>
  A shallow embedding of the Markdown-to-metadata compiler. A JavaScript string is a
  \<^typ>\<open>string\<close>; each \<^typ>\<open>char\<close> stands for one code unit in the range 0..255, so
  the line terminators of the regular expressions are line feed and carriage return and
  the white space of \<open>\s\<close> is tab, line feed, vertical tab, form feed, carriage return,
  space and no-break space. Every \<open>throw\<close> of the source, and every \<open>TypeError\<close> the
  runtime raises on the way, is a value \<open>Inl e\<close> of the result.
\<close>

subsection \<open>Errors\<close>

text \<open>
  The five \<open>Error\<close>s thrown by \<open>parse\<close> carry the 1-based line number of their
  message; \<open>TypeError\<close> is the runtime's error for reading a property of \<open>null\<close> or
  \<open>undefined\<close> and for calling what is not a function; \<open>YAMLException\<close> and
  \<open>SyntaxError\<close> belong to the external parsers.
\<close>

datatype error =
    MultipleOnlyForEntities nat
  | MustFollowImmediately nat
  | MultipleNotForGuides nat
  | SeparatorWithoutEntity nat
  | DocumentationBeforeEntity nat
  | TypeError
  | YAMLException
  | SyntaxError

subsection \<open>Characters of the regular expressions\<close>

definition isLineTerminator :: "char \<Rightarrow> bool" where
  "isLineTerminator c = (c = CHR 0x0A \<or> c = CHR 0x0D)"

definition isWhiteSpace :: "char \<Rightarrow> bool" where
  "isWhiteSpace c =
     (c = CHR 0x09 \<or> c = CHR 0x0A \<or> c = CHR 0x0B \<or> c = CHR 0x0C \<or> c = CHR 0x0D \<or>
      c = CHR 0x20 \<or> c = CHR 0xA0)"

definition isBlank :: "char \<Rightarrow> bool" where
  "isBlank c = (c = CHR 0x20 \<or> c = CHR 0x09)"

definition startsWith :: "string \<Rightarrow> string \<Rightarrow> bool" where
  "startsWith p s = (take (length p) s = p)"

subsection \<open>Helpers\<close>

text \<open>\<open>append(list, item)\<close>: a \<open>null\<close> item is not appended.\<close>

fun append :: "'a list \<Rightarrow> 'a option \<Rightarrow> 'a list" where
  "append list None = list"
| "append list (Some item) = list @ [item]"

subsection \<open>Parser: classifyLine\<close>

datatype node =
    Entity string
  | Guide string
  | Separator
  | EOF
  | Line string

text \<open>
  The tail \<open>(.+)\<close> of the directive patterns: the longest run of characters that are not
  line terminators, which must not be empty.
\<close>

definition dotPlus :: "string \<Rightarrow> string option" where
  "dotPlus s = (case takeWhile (\<lambda>c. \<not> isLineTerminator c) s of [] \<Rightarrow> None | r \<Rightarrow> Some r)"

text \<open>
  \<open>\s*(.+)\<close> at the head of the string: the greedy \<open>\s*\<close> takes one more white-space
  character when the rest then matches, and gives it back otherwise.
\<close>

fun spacesThenDotPlus :: "string \<Rightarrow> string option" where
  "spacesThenDotPlus [] = None"
| "spacesThenDotPlus (c # cs) =
     (if isWhiteSpace c
      then (case spacesThenDotPlus cs of Some r \<Rightarrow> Some r | None \<Rightarrow> dotPlus (c # cs))
      else dotPlus (c # cs))"

text \<open>
  \<open>line.match(/^KEYWORD\s*(.+)/m)\<close>: the first position, at the start of the string or
  just after a line terminator (the \<open>m\<close> flag), where the pattern matches; the result is
  the capture, or \<open>None\<close> for \<open>null\<close>. \<open>bol\<close> says whether the string starts at such a
  position.
\<close>

fun matchDirective :: "string \<Rightarrow> bool \<Rightarrow> string \<Rightarrow> string option" where
  "matchDirective kw bol [] = None"
| "matchDirective kw bol (c # cs) =
     (case (if bol \<and> startsWith kw (c # cs) then spacesThenDotPlus (drop (length kw) (c # cs))
            else None) of
        Some r \<Rightarrow> Some r
      | None \<Rightarrow> matchDirective kw (isLineTerminator c) cs)"

text \<open>
  \<open>/^---+\s*$/.test(line)\<close>, without the \<open>m\<close> flag: three or more dashes from the start
  of the string, then white space up to its end. A dash is no white space, so \<open>-+\<close> can
  only take every dash.
\<close>

definition isSeparator :: "string \<Rightarrow> bool" where
  "isSeparator line =
     (startsWith ''---'' line \<and> list_all isWhiteSpace (dropWhile (\<lambda>c. c = CHR ''-'') line))"

text \<open>
  \<open>classifyLine\<close>. The first two branches index the result of \<open>match\<close> with \<open>[1]\<close>; when
  \<open>match\<close> returns \<open>null\<close> that read raises a \<open>TypeError\<close>.
\<close>

definition classifyLine :: "string \<Rightarrow> error + node" where
  "classifyLine line =
     (if startsWith ''@annotate:'' line then
        (case matchDirective ''@annotate:'' True line of
           None \<Rightarrow> Inl TypeError
         | Some r \<Rightarrow> Inr (Entity r))
      else if startsWith ''@guide:'' line then
        (case matchDirective ''@guide:'' True line of
           None \<Rightarrow> Inl TypeError
         | Some r \<Rightarrow> Inr (Guide r))
      else if isSeparator line then Inr Separator
      else Inr (Line line))"

subsection \<open>Parser: parse\<close>

text \<open>
  \<open>source.split(/\r\n|\n\r|\r|\n/)\<close>: the pieces between line breaks, scanning from the
  left; a two-character break is taken before a one-character one.
\<close>

fun split_lines :: "string \<Rightarrow> string list" where
  "split_lines [] = [[]]"
| "split_lines [c] = (if c = CHR 0x0D \<or> c = CHR 0x0A then [[], []] else [[c]])"
| "split_lines (c # d # cs) =
     (if (c = CHR 0x0D \<and> d = CHR 0x0A) \<or> (c = CHR 0x0A \<and> d = CHR 0x0D)
      then [] # split_lines cs
      else if c = CHR 0x0D \<or> c = CHR 0x0A then [] # split_lines (d # cs)
      else (case split_lines (d # cs) of
              [] \<Rightarrow> [[c]]
            | l # ls \<Rightarrow> (c # l) # ls))"

text \<open>\<open>lines.map(classifyLine)\<close>: the first line that raises ends the whole map.\<close>

fun map_classifyLine :: "string list \<Rightarrow> error + node list" where
  "map_classifyLine [] = Inr []"
| "map_classifyLine (l # ls) =
     (case classifyLine l of
        Inl e \<Rightarrow> Inl e
      | Inr n \<Rightarrow> (case map_classifyLine ls of Inl e \<Rightarrow> Inl e | Inr ns \<Rightarrow> Inr (n # ns)))"

text \<open>
  The reference of a record: absent (a guide has none), one string, or the array the
  multi-reference branch builds. \<open>intoArray\<close> wraps whatever is not an array.
\<close>

datatype ref = Absent | Str string | Arr "ref list"

fun intoArray :: "ref \<Rightarrow> ref list" where
  "intoArray (Arr xs) = xs"
| "intoArray x = [x]"

record annotation_record =
  title :: "string option"
  ref :: ref
  meta :: string
  doc :: string
  multi :: bool
  sealed :: bool

datatype phase = EntityPhase | GuidePhase

record ctx =
  annotation :: "phase option"
  current :: "annotation_record option"
  ast :: "annotation_record list"

text \<open>
  One call of the reducer, \<open>match(node, {...})\<close>, at index \<open>i\<close> of the node array. Reading
  \<open>ctx.current.sealed\<close> when \<open>ctx.current\<close> is \<open>null\<close> would raise a \<open>TypeError\<close>.
\<close>

fun step :: "ctx \<Rightarrow> node \<Rightarrow> nat \<Rightarrow> error + ctx" where
  "step c (Entity r) i =
     (case annotation c of
        Some a \<Rightarrow>
          (if a \<noteq> EntityPhase then Inl (MultipleOnlyForEntities (i + 1))
           else (case current c of
                   None \<Rightarrow> Inl TypeError
                 | Some cur \<Rightarrow>
                     (if \<not> sealed cur
                      then Inr \<lparr>annotation = Some EntityPhase,
                                current = Some \<lparr>title = None,
                                                ref = Arr (intoArray (ref cur) @ [Str r]),
                                                meta = '''', doc = '''',
                                                multi = True, sealed = False\<rparr>,
                                ast = ast c\<rparr>
                      else Inl (MustFollowImmediately (i + 1)))))
      | None \<Rightarrow>
          Inr \<lparr>annotation = Some EntityPhase,
               current = Some \<lparr>title = None, ref = Str r, meta = '''', doc = '''',
                               multi = False, sealed = False\<rparr>,
               ast = append (ast c) (current c)\<rparr>)"
| "step c (Guide t) i =
     (case annotation c of
        Some a \<Rightarrow> Inl (MultipleNotForGuides (i + 1))
      | None \<Rightarrow>
          Inr \<lparr>annotation = Some GuidePhase,
               current = Some \<lparr>title = Some t, ref = Absent, meta = '''', doc = '''',
                               multi = False, sealed = False\<rparr>,
               ast = ast c\<rparr>)"
| "step c Separator i =
     (case current c of
        None \<Rightarrow> Inl (SeparatorWithoutEntity (i + 1))
      | Some cur \<Rightarrow> Inr \<lparr>annotation = None, current = Some cur, ast = ast c\<rparr>)"
| "step c EOF i =
     Inr \<lparr>annotation = None, current = None, ast = append (ast c) (current c)\<rparr>"
| "step c (Line l) i =
     (case current c of
        None \<Rightarrow> Inl (DocumentationBeforeEntity (i + 1))
      | Some cur \<Rightarrow>
          (case annotation c of
             Some a \<Rightarrow>
               Inr \<lparr>annotation = Some a,
                    current = Some \<lparr>title = title cur, ref = ref cur,
                                    meta = meta cur @ ''\<newline>'' @ l, doc = doc cur,
                                    multi = multi cur, sealed = True\<rparr>,
                    ast = ast c\<rparr>
           | None \<Rightarrow>
               Inr \<lparr>annotation = None,
                    current = Some \<lparr>title = title cur, ref = ref cur,
                                    meta = meta cur, doc = doc cur @ ''\<newline>'' @ l,
                                    multi = multi cur, sealed = True\<rparr>,
                    ast = ast c\<rparr>))"

text \<open>\<open>nodes.reduce(...)\<close> from index \<open>i\<close> on; an error ends the fold.\<close>

fun reduce_from :: "nat \<Rightarrow> ctx \<Rightarrow> node list \<Rightarrow> error + ctx" where
  "reduce_from i c [] = Inr c"
| "reduce_from i c (n # ns) =
     (case step c n i of Inl e \<Rightarrow> Inl e | Inr c' \<Rightarrow> reduce_from (Suc i) c' ns)"

definition initial :: ctx where
  "initial = \<lparr>annotation = None, current = None, ast = []\<rparr>"

definition parse :: "string \<Rightarrow> error + annotation_record list" where
  "parse source =
     (case map_classifyLine (split_lines source) of
        Inl e \<Rightarrow> Inl e
      | Inr nodes \<Rightarrow>
          (case reduce_from 0 initial (append nodes (Some EOF)) of
             Inl e \<Rightarrow> Inl e
           | Inr c \<Rightarrow> Inr (ast c)))"

subsection \<open>Metadata values\<close>

text \<open>
  A JavaScript number is \<open>NaN\<close>, an infinity (with its sign) or a finite value; only
  whether it is zero or \<open>NaN\<close> matters below.
\<close>

datatype jsnumber = NaN | Infinity bool | Finite rat

text \<open>
  The syntax-tree nodes built through \<open>babel-types\<close>: \<open>t.stringLiteral\<close>,
  \<open>t.objectExpression\<close> over \<open>t.objectProperty(key, value)\<close> pairs,
  \<open>t.functionExpression(id, params, body)\<close> and so on.
\<close>

datatype expr =
    StringLiteral string
  | BooleanLiteral bool
  | NumericLiteral jsnumber
  | ArrayExpression "expr list"
  | ObjectExpression "(expr \<times> expr) list"
  | FunctionExpression "string option" "expr list" stmt
and stmt =
    BlockStatement "stmt list"
  | ReturnStatement expr
  | ExpressionStatement expr

text \<open>
  The values a metadata field can hold: what the YAML loader returns, and \<open>Raw\<close>
  wrappers around ready-made syntax trees. An object is the list of its own properties
  in insertion order.
\<close>

datatype jsvalue =
    Undefined
  | Null
  | JBool bool
  | JNum jsnumber
  | JStr string
  | JArr "jsvalue list"
  | JObj "(string \<times> jsvalue) list"
  | Raw expr

type_synonym object = "(string \<times> jsvalue) list"

text \<open>What \<open>cond ? a : b\<close>, \<open>||\<close> and \<open>if\<close> take for true.\<close>

fun truthy :: "jsvalue \<Rightarrow> bool" where
  "truthy Undefined = False"
| "truthy Null = False"
| "truthy (JBool b) = b"
| "truthy (JNum n) = (n \<noteq> NaN \<and> n \<noteq> Finite 0)"
| "truthy (JStr s) = (s \<noteq> [])"
| "truthy (JArr xs) = True"
| "truthy (JObj ps) = True"
| "truthy (Raw e) = True"

text \<open>\<open>object[key]\<close> on an object: \<open>undefined\<close> when the property is missing.\<close>

definition getProperty :: "object \<Rightarrow> string \<Rightarrow> jsvalue" where
  "getProperty obj key = (case map_of obj key of None \<Rightarrow> Undefined | Some v \<Rightarrow> v)"

text \<open>
  \<open>merge(...args)\<close> is \<open>Object.assign({}, ...args)\<close>: every property of every argument,
  in order, is assigned to a fresh object; assigning an existing key keeps its place.
\<close>

definition assign :: "object \<Rightarrow> object \<Rightarrow> object" where
  "assign target src = foldl (\<lambda>t (k, v). AList.update k v t) target src"

definition merge :: "object list \<Rightarrow> object" where
  "merge args = foldl assign [] args"

subsection \<open>Compiler transformations: analyse, parseMeta\<close>

record unit =
  u_title :: "string option"
  u_ref :: ref
  u_meta :: jsvalue

text \<open>
  \<open>meta.documentation = entity.doc\<close>: an object takes the property; on a primitive
  the assignment is silently dropped (the file is not in strict mode). An array would
  keep it as an extra own property, which \<^const>\<open>JArr\<close> does not record.
\<close>

fun setDocumentation :: "jsvalue \<Rightarrow> string \<Rightarrow> jsvalue" where
  "setDocumentation (JObj ps) d = JObj (AList.update ''documentation'' (JStr d) ps)"
| "setDocumentation v d = v"

text \<open>
  \<open>parseMeta\<close>. The YAML loader \<open>yaml.safeLoad\<close> is an external library and is taken as
  the parameter \<open>safeLoad\<close>. In the multi branch \<open>entity.ref.map\<close> exists only when the
  reference is an array.
\<close>

definition parseMeta :: "(string \<Rightarrow> error + jsvalue) \<Rightarrow> annotation_record \<Rightarrow> error + unit list" where
  "parseMeta safeLoad entity =
     (case safeLoad (meta entity) of
        Inl e \<Rightarrow> Inl e
      | Inr v \<Rightarrow>
          (let m = setDocumentation (if truthy v then v else JObj []) (doc entity)
           in if multi entity
              then (case ref entity of
                      Arr refs \<Rightarrow> Inr (map (\<lambda>r. \<lparr>u_title = None, u_ref = r, u_meta = m\<rparr>) refs)
                    | _ \<Rightarrow> Inl TypeError)
              else Inr [\<lparr>u_title = title entity, u_ref = ref entity, u_meta = m\<rparr>]))"

text \<open>\<open>analyse\<close>: \<open>flatten(entities.map(parseMeta))\<close>.\<close>

fun analyse :: "(string \<Rightarrow> error + jsvalue) \<Rightarrow> annotation_record list \<Rightarrow> error + unit list" where
  "analyse safeLoad [] = Inr []"
| "analyse safeLoad (entity # entities) =
     (case parseMeta safeLoad entity of
        Inl e \<Rightarrow> Inl e
      | Inr us \<Rightarrow> (case analyse safeLoad entities of Inl e \<Rightarrow> Inl e | Inr rest \<Rightarrow> Inr (us @ rest)))"

subsection \<open>Examples: collectExamples\<close>

text \<open>
  The block tokens of \<open>marked.lexer\<close>, by their \<open>type\<close>: heading, paragraph and code
  carry their \<open>text\<close>; every other type is \<open>Other\<close>. The lexer itself is an external
  library and is the parameter \<open>lexer\<close> of \<open>collectExamples\<close>.
\<close>

datatype token = Heading string | Paragraph string | Code string | Other

text \<open>\<open>/::\s*$/.test(text)\<close>: two colons, then white space up to the end of the text.\<close>

fun endsWithMarker :: "string \<Rightarrow> bool" where
  "endsWithMarker [] = False"
| "endsWithMarker (c # cs) =
     ((startsWith ''::'' (c # cs) \<and> list_all isWhiteSpace (drop 2 (c # cs))) \<or> endsWithMarker cs)"

fun isExampleLeadingParagraph :: "token \<Rightarrow> bool" where
  "isExampleLeadingParagraph (Heading text) = endsWithMarker text"
| "isExampleLeadingParagraph (Paragraph text) = endsWithMarker text"
| "isExampleLeadingParagraph t = False"

record example =
  name :: "string option"
  source :: string

text \<open>\<open>xs.join(sep)\<close>.\<close>

fun join :: "string \<Rightarrow> string list \<Rightarrow> string" where
  "join sep [] = []"
| "join sep [x] = x"
| "join sep (x # y # ys) = x @ sep @ join sep (y # ys)"

text \<open>The reducer of \<open>collectExamples\<close> over \<open>[examples, current, heading, nextNodeIsExample]\<close>.\<close>

fun collect_step ::
  "example list \<times> string list \<times> string option \<times> bool \<Rightarrow> token \<Rightarrow>
   example list \<times> string list \<times> string option \<times> bool" where
  "collect_step (examples, cur, heading, nextNodeIsExample) (Code text) =
     (if nextNodeIsExample then (examples, cur @ [text], heading, False)
      else (examples, cur, heading, False))"
| "collect_step (examples, cur, heading, nextNodeIsExample) (Heading text) =
     (examples @ [\<lparr>name = heading, source = join ''\<newline>\<newline>'' cur\<rparr>],
      [], Some text, isExampleLeadingParagraph (Heading text))"
| "collect_step (examples, cur, heading, nextNodeIsExample) (Paragraph text) =
     (examples, cur, heading, isExampleLeadingParagraph (Paragraph text))"
| "collect_step (examples, cur, heading, nextNodeIsExample) Other =
     (examples, cur, heading, False)"

definition collectExamples :: "(string \<Rightarrow> token list) \<Rightarrow> string \<Rightarrow> example list" where
  "collectExamples lexer documentation =
     (case foldl collect_step ([], [], None, False) (lexer documentation) of
        (xs, x, heading, _) \<Rightarrow>
          (if x = [] then xs
           else xs @ [\<lparr>name = heading, source = join ''\<newline>;\<newline>'' x\<rparr>]))"

subsection \<open>Inferred metadata: inferDeprecated and the documentation rewrite\<close>

definition inferDeprecated :: "object \<Rightarrow> object" where
  "inferDeprecated m =
     (if truthy (getProperty m ''deprecated'')
      then merge [m, [(''stability'', JStr ''deprecated'')]]
      else m)"

text \<open>
  \<open>$\<close> under the \<open>m\<close> flag, read at the head of what is left of the string: the end of
  the string, or a line terminator next.
\<close>

definition atLineEnd :: "string \<Rightarrow> bool" where
  "atLineEnd s = (case s of [] \<Rightarrow> True | c # _ \<Rightarrow> isLineTerminator c)"

text \<open>
  \<open>doc.replace(/^::$/gm, '')\<close>, scanning from the left; \<open>bol\<close> says whether the scan
  stands at the start of the string or just after a line terminator.
\<close>

fun replaceMarkerLines :: "bool \<Rightarrow> string \<Rightarrow> string" where
  "replaceMarkerLines bol [] = []"
| "replaceMarkerLines bol (c # cs) =
     (if bol \<and> startsWith ''::'' (c # cs) \<and> atLineEnd (drop 1 cs)
      then replaceMarkerLines False (drop 1 cs)
      else c # replaceMarkerLines (isLineTerminator c) cs)"

text \<open>
  \<open>/::[ \t]*$/m\<close> at the head of the string. Spaces and tabs are no line terminators, so
  the greedy \<open>[ \t]*\<close> can only take the whole run.
\<close>

definition markerAtLineEnd :: "string \<Rightarrow> bool" where
  "markerAtLineEnd s = (startsWith ''::'' s \<and> atLineEnd (dropWhile isBlank (drop 2 s)))"

text \<open>\<open>.replace(/::[ \t]*$/gm, ':')\<close>, scanning from the left.\<close>

function replaceTrailingMarkers :: "string \<Rightarrow> string" where
  "replaceTrailingMarkers [] = []"
| "replaceTrailingMarkers (c # cs) =
     (if markerAtLineEnd (c # cs)
      then CHR '':'' # replaceTrailingMarkers (dropWhile isBlank (drop 1 cs))
      else c # replaceTrailingMarkers cs)"
  by pat_completeness auto
termination
  by (relation "measure length")
     (auto simp: less_Suc_eq_le intro!: order_trans [OF length_dropWhile_le])

text \<open>The new value of \<open>fullMeta.documentation\<close> in \<open>mergeMeta\<close>.\<close>

definition rewriteDocumentation :: "string \<Rightarrow> string" where
  "rewriteDocumentation d = replaceTrailingMarkers (replaceMarkerLines True d)"

text \<open>Some line of the string ends in \<open>::\<close> and then only spaces and tabs.\<close>

fun hasMarkerAtLineEnd :: "string \<Rightarrow> bool" where
  "hasMarkerAtLineEnd [] = False"
| "hasMarkerAtLineEnd (c # cs) = (markerAtLineEnd (c # cs) \<or> hasMarkerAtLineEnd cs)"

text \<open>
  Some line of the string ends in three or more colons and then only spaces and tabs: a
  colon stands right before a match of \<open>/::[ \t]*$/m\<close>.
\<close>

fun hasThreeColonsAtLineEnd :: "string \<Rightarrow> bool" where
  "hasThreeColonsAtLineEnd [] = False"
| "hasThreeColonsAtLineEnd (c # cs) =
     ((c = CHR '':'' \<and> markerAtLineEnd cs) \<or> hasThreeColonsAtLineEnd cs)"

subsection \<open>Code generation: objectToExpression, valueToLiteral\<close>

definition lazy :: "expr \<Rightarrow> expr" where
  "lazy e = FunctionExpression None [] (BlockStatement [ReturnStatement e])"

text \<open>
  The \<open>~belongsTo\<close> entry of \<open>specialParsers\<close>. It calls \<open>parse\<close>, which in this file is
  the structural parser of the annotation documents: \<open>value.split\<close> needs a string, the
  parser's errors propagate, and when it returns, its result is an array of records, so
  \<open>ast.program\<close> is \<open>undefined\<close> and reading \<open>ast.program.body\<close> raises a \<open>TypeError\<close>.
  The call of \<open>lazy\<close> on the line after is never reached.
\<close>

definition belongsTo :: "jsvalue \<Rightarrow> error + expr" where
  "belongsTo v =
     (case v of
        JStr s \<Rightarrow> (case parse s of Inl e \<Rightarrow> Inl e | Inr records \<Rightarrow> Inl TypeError)
      | _ \<Rightarrow> Inl TypeError)"

text \<open>
  \<open>specialParsers\<close> by its own key. (\<open>key in specialParsers\<close> is also true of the names
  every object inherits, such as \<open>toString\<close>; metadata keys are taken to be none of
  them.)
\<close>

definition specialParsers :: "string \<Rightarrow> (jsvalue \<Rightarrow> error + expr) option" where
  "specialParsers key = (if key = ''~belongsTo'' then Some belongsTo else None)"

definition isSpecial :: "jsvalue \<Rightarrow> string option \<Rightarrow> bool" where
  "isSpecial v key =
     (case key of None \<Rightarrow> False | Some k \<Rightarrow> k \<noteq> [] \<and> specialParsers k \<noteq> None)"

text \<open>
  \<open>specialParsers[key](value)\<close>: calling an entry that does not exist raises a
  \<open>TypeError\<close>.
\<close>

definition parseSpecialProperty :: "jsvalue \<Rightarrow> string option \<Rightarrow> error + expr" where
  "parseSpecialProperty v key =
     (case key of
        None \<Rightarrow> Inl TypeError
      | Some k \<Rightarrow> (case specialParsers k of None \<Rightarrow> Inl TypeError | Some p \<Rightarrow> p v))"

text \<open>
  \<open>valueToLiteral(value, key)\<close>, with \<open>value.map(x => valueToLiteral(x))\<close> and
  \<open>pairs(object).map(pairToProperty)\<close> as the two list traversals; \<open>objectToExpression\<close>
  wraps the second.
\<close>

fun valueToLiteral :: "jsvalue \<Rightarrow> string option \<Rightarrow> error + expr"
  and map_valueToLiteral :: "jsvalue list \<Rightarrow> error + expr list"
  and map_pairToProperty :: "(string \<times> jsvalue) list \<Rightarrow> error + (expr \<times> expr) list" where
  "valueToLiteral v key =
     (case v of
        Raw e \<Rightarrow> Inr e
      | JArr xs \<Rightarrow> (case map_valueToLiteral xs of Inl e \<Rightarrow> Inl e | Inr es \<Rightarrow> Inr (ArrayExpression es))
      | _ \<Rightarrow>
          (if isSpecial v key then parseSpecialProperty v key
           else (case v of
                   JStr s \<Rightarrow> Inr (StringLiteral s)
                 | JBool b \<Rightarrow> Inr (BooleanLiteral b)
                 | JNum n \<Rightarrow> Inr (NumericLiteral n)
                 | JObj ps \<Rightarrow>
                     (case map_pairToProperty ps of
                        Inl e \<Rightarrow> Inl e
                      | Inr props \<Rightarrow> Inr (ObjectExpression props))
                 | _ \<Rightarrow> Inl TypeError)))"
| "map_valueToLiteral [] = Inr []"
| "map_valueToLiteral (x # xs) =
     (case valueToLiteral x None of
        Inl e \<Rightarrow> Inl e
      | Inr y \<Rightarrow> (case map_valueToLiteral xs of Inl e \<Rightarrow> Inl e | Inr ys \<Rightarrow> Inr (y # ys)))"
| "map_pairToProperty [] = Inr []"
| "map_pairToProperty ((k, v) # ps) =
     (case valueToLiteral v (Some k) of
        Inl e \<Rightarrow> Inl e
      | Inr y \<Rightarrow>
          (case map_pairToProperty ps of
             Inl e \<Rightarrow> Inl e
           | Inr ys \<Rightarrow> Inr ((StringLiteral k, y) # ys)))"

definition objectToExpression :: "object \<Rightarrow> error + expr" where
  "objectToExpression obj =
     (case map_pairToProperty obj of Inl e \<Rightarrow> Inl e | Inr props \<Rightarrow> Inr (ObjectExpression props))"

subsection \<open>Invariants of the fold, and a sample lexer\<close>

text \<open>A current record that no plain line has sealed carries no text.\<close>

definition unsealed_empty :: "ctx \<Rightarrow> bool" where
  "unsealed_empty c =
     (case current c of None \<Rightarrow> True | Some r \<Rightarrow> sealed r \<or> (meta r = [] \<and> doc r = []))"

text \<open>Inside an annotation phase there is a current record.\<close>

definition phase_has_record :: "ctx \<Rightarrow> bool" where
  "phase_has_record c = (annotation c = None \<or> current c \<noteq> None)"

text \<open>
  The tokens of the sample document used in the examples below: a heading
  \<open>Example::\<close>, two fenced blocks \<open>a\<close> and \<open>b\<close>, and a heading \<open>Next\<close>.
\<close>

definition sample_lexer :: "string \<Rightarrow> token list" where
  "sample_lexer d = [Heading ''Example::'', Code ''a'', Code ''b'', Heading ''Next'']"

section \<open>Properties\<close>

subsection \<open>The fold of the structural parser\<close>

lemma reduce_from_append:
  "reduce_from i c (xs @ ys) =
     (case reduce_from i c xs of Inl e \<Rightarrow> Inl e | Inr c' \<Rightarrow> reduce_from (i + length xs) c' ys)"
  by (induction xs arbitrary: i c) (auto split: sum.splits)

lemma step_unsealed_empty:
  "unsealed_empty c \<Longrightarrow> step c n i = Inr c' \<Longrightarrow> unsealed_empty c'"
  by (cases n) (auto simp: unsealed_empty_def split: option.splits if_splits)

lemma reduce_from_unsealed_empty:
  "unsealed_empty c \<Longrightarrow> reduce_from i c ns = Inr c' \<Longrightarrow> unsealed_empty c'"
proof (induction ns arbitrary: i c)
  case Nil
  then show ?case by simp
next
  case (Cons n ns)
  then show ?case
    by (auto split: sum.splits dest: step_unsealed_empty)
qed

lemma step_phase_has_record:
  "step c n i = Inr c' \<Longrightarrow> phase_has_record c'"
  by (cases n) (auto simp: phase_has_record_def split: option.splits if_splits)

lemma reduce_from_phase_has_record:
  "phase_has_record c \<Longrightarrow> reduce_from i c ns = Inr c' \<Longrightarrow> phase_has_record c'"
proof (induction ns arbitrary: i c)
  case Nil
  then show ?case by simp
next
  case (Cons n ns)
  then show ?case
    by (auto split: sum.splits dest: step_phase_has_record)
qed

text \<open>Plain lines in an annotation phase extend the metadata text and seal the record.\<close>

lemma lines_extend_meta:
  "annotation c = Some p \<Longrightarrow> current c = Some r \<Longrightarrow>
   reduce_from i c (map Line ls) =
     Inr \<lparr>annotation = Some p,
          current = Some \<lparr>title = title r, ref = ref r,
                          meta = meta r @ concat (map (\<lambda>l. ''\<newline>'' @ l) ls), doc = doc r,
                          multi = multi r, sealed = (sealed r \<or> ls \<noteq> [])\<rparr>,
          ast = ast c\<rparr>"
proof (induction ls arbitrary: i c r)
  case Nil
  then show ?case by (cases c; cases r) simp
next
  case (Cons l ls)
  then show ?case by simp
qed

text \<open>Outside an annotation phase they extend the documentation text.\<close>

lemma lines_extend_doc:
  "annotation c = None \<Longrightarrow> current c = Some r \<Longrightarrow>
   reduce_from i c (map Line ls) =
     Inr \<lparr>annotation = None,
          current = Some \<lparr>title = title r, ref = ref r, meta = meta r,
                          doc = doc r @ concat (map (\<lambda>l. ''\<newline>'' @ l) ls),
                          multi = multi r, sealed = (sealed r \<or> ls \<noteq> [])\<rparr>,
          ast = ast c\<rparr>"
proof (induction ls arbitrary: i c r)
  case Nil
  then show ?case by (cases c; cases r) simp
next
  case (Cons l ls)
  then show ?case by simp
qed

subsection \<open>Guide directives and the completed records\<close>

text \<open>
  C1. The claim: a \<open>@guide:\<close> directive met outside an annotation phase pushes the
  previous current record onto the completed records, so that record appears in the
  parser's output. The \<open>Guide\<close> handler returns \<open>ast: ctx.ast\<close> where the \<open>Entity\<close>
  handler returns \<open>ast: append(ctx.ast, ctx.current)\<close>: on the document below, whose
  entity \<open>a\<close> has ended its documentation, the output holds the guide record alone.
\<close>

theorem guide_drops_previous_record:
  "parse ''@annotate: a\<newline>---\<newline>doc\<newline>@guide: G\<newline>---\<newline>text'' =
     Inr [\<lparr>title = Some ''G'', ref = Absent, meta = [], doc = ''\<newline>text'',
           multi = False, sealed = True\<rparr>]"
  by code_simp

subsection \<open>Special fields\<close>

text \<open>Whatever string a \<open>~belongsTo\<close> field holds, emitting the mapping raises.\<close>

lemma belongsTo_string_raises:
  "isl (valueToLiteral (JStr s) (Some ''~belongsTo''))"
  by (simp add: isSpecial_def specialParsers_def parseSpecialProperty_def belongsTo_def
      split: sum.splits)

lemma belongsTo_string_never_lazy:
  "valueToLiteral (JStr s) (Some ''~belongsTo'') \<noteq> Inr (lazy e)"
  using belongsTo_string_raises [of s] by auto

lemma map_pairToProperty_belongsTo:
  "(''~belongsTo'', JStr s) \<in> set ps \<Longrightarrow> isl (map_pairToProperty ps)"
proof (induction ps)
  case Nil
  then show ?case by simp
next
  case (Cons p ps)
  obtain k v where p: "p = (k, v)" by (cases p)
  show ?case
  proof (cases "valueToLiteral v (Some k)")
    case (Inl e)
    with p show ?thesis by simp
  next
    case (Inr y)
    with belongsTo_string_raises [of s] Cons p show ?thesis
      by (auto split: sum.splits)
  qed
qed

text \<open>
  C2. The claim: a metadata mapping with the key \<open>~belongsTo\<close> and a string value that is
  a valid host-language expression is analysed successfully and the field is emitted as a
  zero-argument function returning the parsed expression. The special parser calls the
  structural parser \<open>parse\<close> of the annotation documents on the value instead of the
  JavaScript parser: on the expression \<open>folktale.core.lambda\<close> it raises the
  structural error of a plain line before any annotation.
\<close>

theorem belongsTo_field_raises:
  "objectToExpression [(''~belongsTo'', JStr ''folktale.core.lambda'')] =
     Inl (DocumentationBeforeEntity 1)"
  by code_simp

subsection \<open>The line classifier\<close>

text \<open>
  C3. The claim: the classifier is total, and a directive-looking line such as
  \<open>@annotate:\<close> with no argument text is classified as a plain line. On that line the
  prefix test succeeds, \<open>match\<close> returns \<open>null\<close> and indexing it raises a \<open>TypeError\<close>.
\<close>

theorem classifyLine_bare_annotate_raises:
  "classifyLine ''@annotate:'' = Inl TypeError"
  by code_simp

subsection \<open>The example miner\<close>

text \<open>
  On a heading that ends in \<open>::\<close>, two code blocks and a new heading, the first block is
  collected and clears \<open>nextNodeIsExample\<close>; the second block is skipped.
\<close>

lemma collectExamples_two_blocks:
  assumes "lexer d = [Heading h1, Code c1, Code c2, Heading h2]" and "endsWithMarker h1"
  shows "collectExamples lexer d =
           [\<lparr>name = None, source = []\<rparr>, \<lparr>name = Some h1, source = c1\<rparr>]"
  using assms by (simp add: collectExamples_def)

text \<open>
  C4, as amended. For every documentation whose tokens are a heading ending in \<open>::\<close>,
  two code blocks and a new heading, \<open>collectExamples\<close> yields exactly one candidate
  named by that heading, and its source is the first code block alone: the second
  block is not collected.
\<close>

theorem heading_marker_collects_first_block:
  assumes "lexer d = [Heading h1, Code c1, Code c2, Heading h2]" and "endsWithMarker h1"
  shows "filter (\<lambda>e. name e = Some h1) (collectExamples lexer d) =
           [\<lparr>name = Some h1, source = c1\<rparr>]"
  using assms by (simp add: collectExamples_two_blocks [where lexer = lexer and d = d])

theorem heading_marker_collects_first_block_witness:
  "sample_lexer ''# Example::'' = [Heading ''Example::'', Code ''a'', Code ''b'', Heading ''Next''] \<and>
   endsWithMarker ''Example::'' \<and>
   filter (\<lambda>e. name e = Some ''Example::'') (collectExamples sample_lexer ''# Example::'') =
     [\<lparr>name = Some ''Example::'', source = ''a''\<rparr>]"
proof -
  have l: "sample_lexer ''# Example::'' =
             [Heading ''Example::'', Code ''a'', Code ''b'', Heading ''Next'']"
    by (simp add: sample_lexer_def)
  have m: "endsWithMarker ''Example::''"
    by code_simp
  from heading_marker_collects_first_block
         [where lexer = sample_lexer and d = "''# Example::''", OF l m] l m
  show ?thesis by simp
qed

text \<open>
  The claim as stated (exactly one candidate, whose source is both blocks joined by a
  blank line) fails on the sample document: it yields two candidates, and none of them
  has that source.
\<close>

theorem two_code_blocks_counterexample:
  "length (collectExamples sample_lexer ''# Example::'') = 2 \<and>
   ''a\<newline>\<newline>b'' \<notin> set (map source (collectExamples sample_lexer ''# Example::''))"
  by code_simp

subsection \<open>The documentation rewrite\<close>

lemma blank_not_colon:
  "isBlank c \<Longrightarrow> c \<noteq> CHR '':''"
  by (auto simp: isBlank_def)

lemma terminator_not_colon:
  "isLineTerminator c \<Longrightarrow> c \<noteq> CHR '':''"
  by (auto simp: isLineTerminator_def)

lemma blank_not_terminator:
  "isBlank c \<Longrightarrow> \<not> isLineTerminator c"
  by (auto simp: isBlank_def isLineTerminator_def)

lemma startsWith_colons:
  "startsWith ''::'' s = (\<exists>t. s = CHR '':'' # CHR '':'' # t)"
  by (cases s; cases "tl s") (auto simp: startsWith_def)

lemma markerAtLineEnd_iff:
  "markerAtLineEnd s = (\<exists>t. s = CHR '':'' # CHR '':'' # t \<and> atLineEnd (dropWhile isBlank t))"
  by (auto simp: markerAtLineEnd_def startsWith_colons)

lemma atLineEnd_dropWhile:
  "atLineEnd x \<Longrightarrow> dropWhile isBlank x = x"
  by (cases x) (auto simp: atLineEnd_def blank_not_terminator)

lemma atLineEnd_not_colon:
  "atLineEnd x \<Longrightarrow> x \<noteq> CHR '':'' # t"
  by (cases x) (auto simp: atLineEnd_def terminator_not_colon)

lemma replaceTrailingMarkers_head:
  "\<exists>ys. replaceTrailingMarkers (c # cs) = c # ys"
  by (auto simp: markerAtLineEnd_iff)

lemma replaceTrailingMarkers_id:
  "\<not> hasMarkerAtLineEnd s \<Longrightarrow> replaceTrailingMarkers s = s"
  by (induction s) auto

lemma replaceMarkerLines_id:
  "\<not> hasMarkerAtLineEnd s \<Longrightarrow> replaceMarkerLines b s = s"
proof (induction s arbitrary: b)
  case Nil
  then show ?case by simp
next
  case (Cons c cs)
  have "\<not> (startsWith ''::'' (c # cs) \<and> atLineEnd (drop 1 cs))"
    using Cons.prems by (auto simp: markerAtLineEnd_def atLineEnd_dropWhile)
  with Cons show ?case by auto
qed

lemma line_end_after_trailing:
  "atLineEnd (dropWhile isBlank (replaceTrailingMarkers x)) = atLineEnd (dropWhile isBlank x)"
proof (induction x)
  case Nil
  then show ?case by simp
next
  case (Cons c cs)
  show ?case
  proof (cases "isBlank c")
    case True
    then have "\<not> markerAtLineEnd (c # cs)"
      by (auto simp: markerAtLineEnd_iff blank_not_colon)
    with True Cons show ?thesis by simp
  next
    case False
    obtain ys where "replaceTrailingMarkers (c # cs) = c # ys"
      using replaceTrailingMarkers_head by blast
    with False show ?thesis by (simp add: atLineEnd_def)
  qed
qed

lemma three_colons_drop:
  "hasThreeColonsAtLineEnd (drop n s) \<Longrightarrow> hasThreeColonsAtLineEnd s"
proof (induction s arbitrary: n)
  case Nil
  then show ?case by simp
next
  case (Cons c cs)
  then show ?case by (cases n) auto
qed

lemma three_colons_dropWhile:
  "hasThreeColonsAtLineEnd (dropWhile P s) \<Longrightarrow> hasThreeColonsAtLineEnd s"
  by (induction s) (auto split: if_splits)

lemma trailing_leaves_no_marker:
  "\<not> hasThreeColonsAtLineEnd s \<Longrightarrow> \<not> hasMarkerAtLineEnd (replaceTrailingMarkers s)"
proof (induction s rule: replaceTrailingMarkers.induct)
  case 1
  then show ?case by simp
next
  case (2 c cs)
  show ?case
  proof (cases "markerAtLineEnd (c # cs)")
    case True
    define rest where "rest = dropWhile isBlank (drop 1 cs)"
    have e: "atLineEnd rest"
      using True by (auto simp: rest_def markerAtLineEnd_iff)
    have "\<not> hasThreeColonsAtLineEnd rest"
      using "2.prems" three_colons_dropWhile [of isBlank "drop 1 cs"] three_colons_drop [of 1 cs]
      by (auto simp: rest_def)
    with "2.IH"(1) True have ih: "\<not> hasMarkerAtLineEnd (replaceTrailingMarkers rest)"
      by (simp add: rest_def)
    have "\<not> markerAtLineEnd (CHR '':'' # replaceTrailingMarkers rest)"
    proof (cases rest)
      case Nil
      then show ?thesis by (simp add: markerAtLineEnd_iff)
    next
      case (Cons x xs)
      with e have "x \<noteq> CHR '':''" by (auto simp: atLineEnd_def terminator_not_colon)
      moreover obtain ys where "replaceTrailingMarkers (x # xs) = x # ys"
        using replaceTrailingMarkers_head by blast
      ultimately show ?thesis using Cons by (simp add: markerAtLineEnd_iff)
    qed
    with ih True show ?thesis by (simp add: rest_def)
  next
    case False
    have ih: "\<not> hasMarkerAtLineEnd (replaceTrailingMarkers cs)"
      using "2.IH"(2) False "2.prems" by simp
    have "\<not> markerAtLineEnd (c # replaceTrailingMarkers cs)"
    proof
      assume m: "markerAtLineEnd (c # replaceTrailingMarkers cs)"
      then obtain z where c: "c = CHR '':''" and z: "replaceTrailingMarkers cs = CHR '':'' # z"
        and ez: "atLineEnd (dropWhile isBlank z)"
        by (auto simp: markerAtLineEnd_iff)
      obtain cs' where cs: "cs = CHR '':'' # cs'"
      proof (cases cs)
        case Nil
        with z show ?thesis by simp
      next
        case (Cons a l)
        obtain ys where "replaceTrailingMarkers (a # l) = a # ys"
          using replaceTrailingMarkers_head by blast
        with z Cons have "a = CHR '':''" by simp
        with Cons that show ?thesis by simp
      qed
      have nm: "\<not> markerAtLineEnd cs"
        using "2.prems" c by simp
      with z cs have "z = replaceTrailingMarkers cs'" by simp
      with ez have "atLineEnd (dropWhile isBlank cs')" by (simp add: line_end_after_trailing)
      with c cs have "markerAtLineEnd (c # cs)" by (simp add: markerAtLineEnd_iff)
      with False show False by simp
    qed
    with ih False show ?thesis by simp
  qed
qed

lemma line_end_after_marker_lines:
  "atLineEnd (dropWhile isBlank (replaceMarkerLines False x)) = atLineEnd (dropWhile isBlank x)"
proof (induction x)
  case Nil
  then show ?case by simp
next
  case (Cons c cs)
  show ?case
  proof (cases "isBlank c")
    case True
    with Cons show ?thesis by (simp add: blank_not_terminator)
  next
    case False
    then show ?thesis by (simp add: atLineEnd_def)
  qed
qed

lemma marker_after_marker_lines:
  "markerAtLineEnd (replaceMarkerLines False x) = markerAtLineEnd x"
proof (cases x)
  case Nil
  then show ?thesis by simp
next
  case (Cons c1 t)
  note x = Cons
  show ?thesis
  proof (cases t)
    case Nil
    with x show ?thesis by (simp add: markerAtLineEnd_iff)
  next
    case (Cons c2 rest)
    show ?thesis
    proof (cases "c1 = CHR '':'' \<and> c2 = CHR '':''")
      case True
      then have "replaceMarkerLines False x = c1 # c2 # replaceMarkerLines False rest"
        using x Cons by (simp add: isLineTerminator_def)
      with True x Cons show ?thesis
        by (simp add: markerAtLineEnd_iff line_end_after_marker_lines)
    next
      case False
      have "replaceMarkerLines False x = c1 # replaceMarkerLines (isLineTerminator c1) t"
        using x by simp
      moreover have "c1 = CHR '':'' \<Longrightarrow> replaceMarkerLines (isLineTerminator c1) t
          = c2 # replaceMarkerLines (isLineTerminator c2) rest"
        using Cons by (simp add: isLineTerminator_def)
      ultimately show ?thesis using False x Cons
        by (auto simp: markerAtLineEnd_iff)
    qed
  qed
qed

lemma marker_lines_no_new_three_colons:
  "hasThreeColonsAtLineEnd (replaceMarkerLines b d) \<Longrightarrow> hasThreeColonsAtLineEnd d"
proof (induction b d rule: replaceMarkerLines.induct)
  case (1 bol)
  then show ?case by simp
next
  case (2 bol c cs)
  show ?case
  proof (cases "bol \<and> startsWith ''::'' (c # cs) \<and> atLineEnd (drop 1 cs)")
    case True
    with 2 have "hasThreeColonsAtLineEnd (drop 1 cs)" by simp
    then have "hasThreeColonsAtLineEnd cs" by (rule three_colons_drop)
    then show ?thesis by simp
  next
    case False
    with "2.prems" have
      "(c = CHR '':'' \<and> markerAtLineEnd (replaceMarkerLines (isLineTerminator c) cs)) \<or>
       hasThreeColonsAtLineEnd (replaceMarkerLines (isLineTerminator c) cs)"
      by auto
    then show ?thesis
    proof
      assume a: "c = CHR '':'' \<and> markerAtLineEnd (replaceMarkerLines (isLineTerminator c) cs)"
      then have "\<not> isLineTerminator c" by (auto simp: isLineTerminator_def)
      with a show ?thesis by (simp add: marker_after_marker_lines)
    next
      assume "hasThreeColonsAtLineEnd (replaceMarkerLines (isLineTerminator c) cs)"
      with "2.IH"(2) False show ?thesis by simp
    qed
  qed
qed

lemma rewrite_idempotent:
  assumes "\<not> hasThreeColonsAtLineEnd d"
  shows "rewriteDocumentation (rewriteDocumentation d) = rewriteDocumentation d"
proof -
  from assms have "\<not> hasThreeColonsAtLineEnd (replaceMarkerLines True d)"
    using marker_lines_no_new_three_colons by blast
  then have "\<not> hasMarkerAtLineEnd (rewriteDocumentation d)"
    unfolding rewriteDocumentation_def by (rule trailing_leaves_no_marker)
  then show ?thesis
    by (simp add: rewriteDocumentation_def [of "rewriteDocumentation d"]
        replaceMarkerLines_id replaceTrailingMarkers_id)
qed

lemma length_replaceMarkerLines:
  "length (replaceMarkerLines b x) \<le> length x"
proof (induction b x rule: replaceMarkerLines.induct)
  case (1 bol)
  then show ?case by simp
next
  case (2 bol c cs)
  show ?case
  proof (cases "bol \<and> startsWith ''::'' (c # cs) \<and> atLineEnd (drop 1 cs)")
    case True
    with "2.IH"(1) have "length (replaceMarkerLines False (drop 1 cs)) \<le> length (drop 1 cs)"
      by simp
    with True show ?thesis by simp
  next
    case False
    with "2.IH"(2) show ?thesis by auto
  qed
qed

lemma replaceMarkerLines_shorter_or_same:
  "length (replaceMarkerLines b x) < length x \<or> replaceMarkerLines b x = x"
proof (induction b x rule: replaceMarkerLines.induct)
  case (1 bol)
  then show ?case by simp
next
  case (2 bol c cs)
  show ?case
  proof (cases "bol \<and> startsWith ''::'' (c # cs) \<and> atLineEnd (drop 1 cs)")
    case True
    have "length (replaceMarkerLines False (drop 1 cs)) \<le> length (drop 1 cs)"
      by (rule length_replaceMarkerLines)
    with True show ?thesis by auto
  next
    case False
    with "2.IH"(2) show ?thesis by auto
  qed
qed

lemma length_replaceTrailingMarkers:
  "length (replaceTrailingMarkers x) \<le> length x"
proof (induction x rule: replaceTrailingMarkers.induct)
  case 1
  then show ?case by simp
next
  case (2 c cs)
  show ?case
  proof (cases "markerAtLineEnd (c # cs)")
    case True
    with "2.IH"(1) have "length (replaceTrailingMarkers (dropWhile isBlank (drop 1 cs)))
        \<le> length (dropWhile isBlank (drop 1 cs))" by simp
    also have "\<dots> \<le> length (drop 1 cs)" by (rule length_dropWhile_le)
    finally show ?thesis using True by simp
  next
    case False
    with "2.IH"(2) show ?thesis by simp
  qed
qed

lemma replaceTrailingMarkers_shorter:
  "hasMarkerAtLineEnd x \<Longrightarrow> length (replaceTrailingMarkers x) < length x"
proof (induction x rule: replaceTrailingMarkers.induct)
  case 1
  then show ?case by simp
next
  case (2 c cs)
  show ?case
  proof (cases "markerAtLineEnd (c # cs)")
    case True
    then obtain t where cs: "cs = CHR '':'' # t" by (auto simp: markerAtLineEnd_iff)
    have "length (replaceTrailingMarkers (dropWhile isBlank t)) \<le> length (dropWhile isBlank t)"
      by (rule length_replaceTrailingMarkers)
    also have "\<dots> \<le> length t" by (rule length_dropWhile_le)
    finally show ?thesis using True cs by simp
  next
    case False
    with 2 show ?thesis by simp
  qed
qed

lemma rewrite_changes_marker:
  assumes "hasMarkerAtLineEnd y"
  shows "rewriteDocumentation y \<noteq> y"
proof -
  have "length (rewriteDocumentation y) < length y"
  proof (cases "replaceMarkerLines True y = y")
    case True
    with assms show ?thesis
      by (simp add: rewriteDocumentation_def replaceTrailingMarkers_shorter)
  next
    case False
    with replaceMarkerLines_shorter_or_same [of True y]
    have "length (replaceMarkerLines True y) < length y" by simp
    with length_replaceTrailingMarkers [of "replaceMarkerLines True y"]
    show ?thesis by (simp add: rewriteDocumentation_def)
  qed
  then show ?thesis by auto
qed

lemma marker_lines_keep_three_colons:
  "hasThreeColonsAtLineEnd d \<Longrightarrow> hasThreeColonsAtLineEnd (replaceMarkerLines b d)"
proof (induction b d rule: replaceMarkerLines.induct)
  case (1 bol)
  then show ?case by simp
next
  case (2 bol c cs)
  show ?case
  proof (cases "bol \<and> startsWith ''::'' (c # cs) \<and> atLineEnd (drop 1 cs)")
    case True
    then obtain t where cs: "cs = CHR '':'' # t" and c: "c = CHR '':''" and e: "atLineEnd t"
      by (auto simp: startsWith_colons)
    from e have "\<not> markerAtLineEnd (CHR '':'' # t)" "\<not> markerAtLineEnd t"
      by (auto simp: markerAtLineEnd_iff atLineEnd_not_colon)
    with "2.prems" cs have "hasThreeColonsAtLineEnd t" by auto
    with "2.IH"(1) True cs show ?thesis by simp
  next
    case False
    from "2.prems" have "(c = CHR '':'' \<and> markerAtLineEnd cs) \<or> hasThreeColonsAtLineEnd cs"
      by simp
    then show ?thesis
    proof
      assume a: "c = CHR '':'' \<and> markerAtLineEnd cs"
      then have "\<not> isLineTerminator c" by (auto simp: isLineTerminator_def)
      with a False show ?thesis by (auto simp: marker_after_marker_lines)
    next
      assume "hasThreeColonsAtLineEnd cs"
      with "2.IH"(2) False show ?thesis by auto
    qed
  qed
qed

lemma colon_not_blank:
  "\<not> isBlank CHR '':''"
  by (simp add: isBlank_def)

lemma three_colons_skip_blanks:
  "hasThreeColonsAtLineEnd t \<Longrightarrow> hasThreeColonsAtLineEnd (dropWhile isBlank t)"
  by (induction t) (auto simp: colon_not_blank)

lemma trailing_keeps_marker:
  "hasThreeColonsAtLineEnd s \<Longrightarrow> hasMarkerAtLineEnd (replaceTrailingMarkers s)"
proof (induction s rule: replaceTrailingMarkers.induct)
  case 1
  then show ?case by simp
next
  case (2 c cs)
  show ?case
  proof (cases "markerAtLineEnd (c # cs)")
    case True
    then obtain t where c: "c = CHR '':''" and cs: "cs = CHR '':'' # t"
      and e: "atLineEnd (dropWhile isBlank t)"
      by (auto simp: markerAtLineEnd_iff)
    have nt: "\<And>u. t \<noteq> CHR '':'' # u"
      using e by (auto simp: atLineEnd_def isLineTerminator_def colon_not_blank)
    then have "\<not> markerAtLineEnd cs" "\<not> markerAtLineEnd t"
      using cs by (auto simp: markerAtLineEnd_iff)
    with "2.prems" cs have "hasThreeColonsAtLineEnd t" by auto
    then have "hasThreeColonsAtLineEnd (dropWhile isBlank t)" by (rule three_colons_skip_blanks)
    with "2.IH"(1) True cs show ?thesis by simp
  next
    case False
    from "2.prems" have "(c = CHR '':'' \<and> markerAtLineEnd cs) \<or> hasThreeColonsAtLineEnd cs"
      by simp
    then show ?thesis
    proof
      assume a: "c = CHR '':'' \<and> markerAtLineEnd cs"
      then obtain t where cs: "cs = CHR '':'' # CHR '':'' # t"
        and e: "atLineEnd (dropWhile isBlank t)"
        by (auto simp: markerAtLineEnd_iff)
      have "replaceTrailingMarkers cs = CHR '':'' # replaceTrailingMarkers (dropWhile isBlank t)"
        using a cs by simp
      moreover have "atLineEnd (dropWhile isBlank (replaceTrailingMarkers (dropWhile isBlank t)))"
        using e by (simp add: line_end_after_trailing)
      ultimately have "markerAtLineEnd (c # replaceTrailingMarkers cs)"
        using a by (simp add: markerAtLineEnd_iff)
      with False show ?thesis by simp
    next
      assume "hasThreeColonsAtLineEnd cs"
      with "2.IH"(2) False show ?thesis by simp
    qed
  qed
qed

text \<open>
  C5, as amended. Applying the \<open>::\<close>-marker rewrite twice yields the same result as
  applying it once exactly for the documentation strings in which no line ends in three
  or more consecutive colons (with spaces and tabs allowed after them). On a line that
  does, each application removes one colon more.
\<close>

theorem rewrite_idempotent_iff:
  "(rewriteDocumentation (rewriteDocumentation d) = rewriteDocumentation d) =
     (\<not> hasThreeColonsAtLineEnd d)"
proof
  assume eq: "rewriteDocumentation (rewriteDocumentation d) = rewriteDocumentation d"
  show "\<not> hasThreeColonsAtLineEnd d"
  proof
    assume "hasThreeColonsAtLineEnd d"
    then have "hasThreeColonsAtLineEnd (replaceMarkerLines True d)"
      by (rule marker_lines_keep_three_colons)
    then have "hasMarkerAtLineEnd (rewriteDocumentation d)"
      unfolding rewriteDocumentation_def by (rule trailing_keeps_marker)
    then have "rewriteDocumentation (rewriteDocumentation d) \<noteq> rewriteDocumentation d"
      by (rule rewrite_changes_marker)
    with eq show False by simp
  qed
next
  assume "\<not> hasThreeColonsAtLineEnd d"
  then show "rewriteDocumentation (rewriteDocumentation d) = rewriteDocumentation d"
    by (rule rewrite_idempotent)
qed

theorem rewrite_idempotent_iff_witness:
  "\<not> hasThreeColonsAtLineEnd ''Example::  \<newline>::\<newline>a: b'' \<and>
   rewriteDocumentation ''Example::  \<newline>::\<newline>a: b'' = ''Example:\<newline>\<newline>a: b'' \<and>
   rewriteDocumentation (rewriteDocumentation ''Example::  \<newline>::\<newline>a: b'') =
     rewriteDocumentation ''Example::  \<newline>::\<newline>a: b''"
proof -
  have h: "\<not> hasThreeColonsAtLineEnd ''Example::  \<newline>::\<newline>a: b''"
    by code_simp
  have v: "rewriteDocumentation ''Example::  \<newline>::\<newline>a: b'' = ''Example:\<newline>\<newline>a: b''"
    by code_simp
  from rewrite_idempotent_iff [of "''Example::  \<newline>::\<newline>a: b''"] h v
  show ?thesis by simp
qed

text \<open>
  The claim as stated fails on a line ending in three colons: the first application
  leaves two of them, the second one.
\<close>

theorem rewrite_three_colons_counterexample:
  "rewriteDocumentation ''a:::'' = ''a::'' \<and>
   rewriteDocumentation (rewriteDocumentation ''a:::'') = ''a:''"
  by code_simp

subsection \<open>The sealing rule\<close>

lemma lines_in_entity_phase:
  "annotation c = Some EntityPhase \<Longrightarrow> current c = Some r \<Longrightarrow>
   \<exists>c' r'. reduce_from i c (map Line ls) = Inr c' \<and> annotation c' = Some EntityPhase \<and>
     current c' = Some r' \<and> sealed r' = (sealed r \<or> ls \<noteq> [])"
  by (simp add: lines_extend_meta)

lemma entity_after_lines_rejected:
  assumes "annotation c = Some EntityPhase" and "current c = Some r" and "ls \<noteq> []"
  shows "reduce_from i c (map Line ls @ Entity b # rest) =
           Inl (MustFollowImmediately (i + length ls + 1))"
proof -
  from lines_in_entity_phase [OF assms(1,2), of i ls] assms(3)
  obtain c' r' where r: "reduce_from i c (map Line ls) = Inr c'"
    and a: "annotation c' = Some EntityPhase" and cur: "current c' = Some r'" and "sealed r'"
    by auto
  then show ?thesis by (simp add: reduce_from_append)
qed

lemma entity_accepted:
  "step c (Entity a) i = Inr c' \<Longrightarrow> annotation c' = Some EntityPhase \<and> current c' \<noteq> None"
  by (auto split: option.splits if_splits)

lemma entity_rejected:
  "step c (Entity a) i = Inl e \<Longrightarrow> annotation c \<noteq> Some GuidePhase \<Longrightarrow> phase_has_record c \<Longrightarrow>
   e = MustFollowImmediately (i + 1)"
  by (auto simp: phase_has_record_def split: option.splits if_splits)
     (meson phase.exhaust)+

text \<open>
  C6, as amended. Take a document whose lines classify to \<open>P\<close>, an \<open>@annotate:\<close>
  directive, one or more plain lines \<open>L\<close> and nothing else, a second \<open>@annotate:\<close>
  directive, and \<open>S\<close>. The parser raises an error and produces no records. When the
  lines \<open>P\<close> before the first directive are accepted and do not leave the parser in a
  guide annotation phase, the error is the one saying that multiple annotations have to
  follow each other immediately, raised at the first directive (when \<open>P\<close> ends in a
  sealed entity annotation) or at the second.
\<close>

theorem sealed_annotation_rejected:
  assumes "map_classifyLine (split_lines src) =
             Inr (P @ [Entity a] @ map Line L @ [Entity b] @ S)"
    and "L \<noteq> []"
  shows "isl (parse src) \<and>
         (\<forall>c. reduce_from 0 initial P = Inr c \<and> annotation c \<noteq> Some GuidePhase \<longrightarrow>
            parse src = Inl (MustFollowImmediately (length P + 1)) \<or>
            parse src = Inl (MustFollowImmediately (length P + length L + 2)))"
proof -
  define tail where "tail = map Line L @ Entity b # (S @ [EOF])"
  define run where "run = reduce_from 0 initial (P @ Entity a # tail)"
  have parse: "parse src = (case run of Inl e \<Rightarrow> Inl e | Inr c \<Rightarrow> Inr (ast c))"
    using assms(1) by (simp add: parse_def run_def tail_def)
  show ?thesis
  proof (cases "reduce_from 0 initial P")
    case (Inl e)
    then have "run = Inl e" by (simp add: run_def reduce_from_append)
    with parse Inl show ?thesis by simp
  next
    case (Inr c0)
    have inv: "phase_has_record c0"
      using reduce_from_phase_has_record [OF _ Inr] by (simp add: phase_has_record_def initial_def)
    show ?thesis
    proof (cases "step c0 (Entity a) (length P)")
      case (Inl e)
      then have run: "run = Inl e" using Inr by (simp add: run_def reduce_from_append)
      have "annotation c0 \<noteq> Some GuidePhase \<Longrightarrow> e = MustFollowImmediately (length P + 1)"
        using entity_rejected [OF Inl _ inv] by simp
      with parse run Inr show ?thesis by auto
    next
      case (Inr c1)
      from entity_accepted [OF Inr] obtain r1 where
        "annotation c1 = Some EntityPhase" and "current c1 = Some r1" by auto
      from entity_after_lines_rejected [OF this assms(2), of "Suc (length P)" b "S @ [EOF]"]
      have "run = Inl (MustFollowImmediately (length P + length L + 2))"
        using Inr \<open>reduce_from 0 initial P = Inr c0\<close>
        by (simp add: run_def tail_def reduce_from_append)
      with parse show ?thesis by simp
    qed
  qed
qed

theorem sealed_annotation_rejected_witness:
  "map_classifyLine (split_lines ''@annotate: a\<newline>key: 1\<newline>@annotate: b'') =
     Inr ([] @ [Entity ''a''] @ map Line [''key: 1''] @ [Entity ''b''] @ []) \<and>
   [''key: 1''] \<noteq> [] \<and>
   reduce_from 0 initial [] = Inr initial \<and> annotation initial \<noteq> Some GuidePhase \<and>
   parse ''@annotate: a\<newline>key: 1\<newline>@annotate: b'' = Inl (MustFollowImmediately 3)"
proof -
  have c: "map_classifyLine (split_lines ''@annotate: a\<newline>key: 1\<newline>@annotate: b'') =
     Inr ([] @ [Entity ''a''] @ map Line [''key: 1''] @ [Entity ''b''] @ [])"
    by code_simp
  have i: "reduce_from 0 initial [] = Inr initial \<and> annotation initial \<noteq> Some GuidePhase"
    by (simp add: initial_def)
  have p: "parse ''@annotate: a\<newline>key: 1\<newline>@annotate: b'' \<noteq> Inl (MustFollowImmediately 1)"
    by code_simp
  from sealed_annotation_rejected [OF c] i p
  have "parse ''@annotate: a\<newline>key: 1\<newline>@annotate: b'' = Inl (MustFollowImmediately 3)"
    by auto
  with c i show ?thesis by simp
qed

text \<open>
  The claim as stated fails when the first directive stands inside a guide annotation:
  the document below holds two \<open>@annotate:\<close> directives with one plain line between
  them, and the error raised is that multiple annotations are only supported for
  entities, at line 2.
\<close>

theorem sealed_annotation_counterexample:
  "parse ''@guide: g\<newline>@annotate: a\<newline>key: 1\<newline>@annotate: b'' =
     Inl (MultipleOnlyForEntities 2)"
  by code_simp

subsection \<open>Multi-reference expansion\<close>

lemma parse_two_annotations:
  assumes "map_classifyLine (split_lines src) =
             Inr ([Entity a, Entity b] @ map Line ms @ [Separator] @ map Line ds)"
  shows "parse src =
           Inr [\<lparr>title = None, ref = Arr [Str a, Str b],
                 meta = concat (map (\<lambda>l. ''\<newline>'' @ l) ms),
                 doc = concat (map (\<lambda>l. ''\<newline>'' @ l) ds),
                 multi = True, sealed = (ms \<noteq> [] \<or> ds \<noteq> [])\<rparr>]"
  using assms
  by (simp add: parse_def initial_def reduce_from_append lines_extend_meta lines_extend_doc)

text \<open>
  C7. A document of \<open>@annotate: a\<close>, \<open>@annotate: b\<close> right after it, metadata lines
  \<open>ms\<close>, a separator and documentation lines \<open>ds\<close>, whose metadata block the YAML
  loader accepts, yields exactly two units, for \<open>a\<close> and then for \<open>b\<close>, with the same
  fields: the loaded metadata with the documentation text added.
\<close>

theorem multi_ref_expansion:
  assumes "map_classifyLine (split_lines src) =
             Inr ([Entity a, Entity b] @ map Line ms @ [Separator] @ map Line ds)"
    and "safeLoad (concat (map (\<lambda>l. ''\<newline>'' @ l) ms)) = Inr v"
  shows "(case parse src of Inl e \<Rightarrow> Inl e | Inr records \<Rightarrow> analyse safeLoad records) =
           Inr [\<lparr>u_title = None, u_ref = Str a,
                  u_meta = setDocumentation (if truthy v then v else JObj [])
                             (concat (map (\<lambda>l. ''\<newline>'' @ l) ds))\<rparr>,
                \<lparr>u_title = None, u_ref = Str b,
                  u_meta = setDocumentation (if truthy v then v else JObj [])
                             (concat (map (\<lambda>l. ''\<newline>'' @ l) ds))\<rparr>]"
  using assms(2) by (simp add: parse_two_annotations [OF assms(1)] parseMeta_def Let_def)

theorem multi_ref_expansion_witness:
  "map_classifyLine (split_lines ''@annotate: a\<newline>@annotate: b\<newline>category: x\<newline>---\<newline>Hello'') =
     Inr ([Entity ''a'', Entity ''b''] @ map Line [''category: x''] @ [Separator] @ map Line [''Hello'']) \<and>
   (case parse ''@annotate: a\<newline>@annotate: b\<newline>category: x\<newline>---\<newline>Hello'' of
      Inl e \<Rightarrow> Inl e
    | Inr records \<Rightarrow> analyse (\<lambda>s. Inr (JObj [(''category'', JStr ''x'')])) records) =
     Inr [\<lparr>u_title = None, u_ref = Str ''a'',
            u_meta = JObj [(''category'', JStr ''x''), (''documentation'', JStr ''\<newline>Hello'')]\<rparr>,
          \<lparr>u_title = None, u_ref = Str ''b'',
            u_meta = JObj [(''category'', JStr ''x''), (''documentation'', JStr ''\<newline>Hello'')]\<rparr>]"
proof -
  have c: "map_classifyLine (split_lines ''@annotate: a\<newline>@annotate: b\<newline>category: x\<newline>---\<newline>Hello'') =
     Inr ([Entity ''a'', Entity ''b''] @ map Line [''category: x''] @ [Separator] @ map Line [''Hello''])"
    by code_simp
  have y: "(\<lambda>s. Inr (JObj [(''category'', JStr ''x'')]) :: error + jsvalue)
             (concat (map (\<lambda>l. ''\<newline>'' @ l) [''category: x''])) =
           Inr (JObj [(''category'', JStr ''x'')])"
    by simp
  from multi_ref_expansion [OF c y] c show ?thesis by simp
qed

subsection \<open>Deprecation\<close>

text \<open>
  C8. When the field \<open>deprecated\<close> of a metadata mapping is truthy, the mapping returned
  by \<open>inferDeprecated\<close> has \<open>stability\<close> equal to \<open>deprecated\<close>, whatever \<open>stability\<close>
  the mapping held; when \<open>deprecated\<close> is absent or falsy the mapping is returned as it
  is.
\<close>

theorem inferDeprecated_stability:
  "(truthy (getProperty m ''deprecated'') \<longrightarrow>
      getProperty (inferDeprecated m) ''stability'' = JStr ''deprecated'') \<and>
   (\<not> truthy (getProperty m ''deprecated'') \<longrightarrow> inferDeprecated m = m)"
  by (simp add: inferDeprecated_def getProperty_def merge_def assign_def update_conv')

theorem inferDeprecated_stability_witness:
  "truthy (getProperty [(''stability'', JStr ''stable''), (''deprecated'', JBool True)] ''deprecated'') \<and>
   getProperty (inferDeprecated [(''stability'', JStr ''stable''), (''deprecated'', JBool True)])
     ''stability'' = JStr ''deprecated'' \<and>
   \<not> truthy (getProperty [(''stability'', JStr ''stable'')] ''deprecated'') \<and>
   inferDeprecated [(''stability'', JStr ''stable'')] = [(''stability'', JStr ''stable'')]"
  using inferDeprecated_stability [of "[(''stability'', JStr ''stable''), (''deprecated'', JBool True)]"]
    inferDeprecated_stability [of "[(''stability'', JStr ''stable'')]"]
  by (simp add: getProperty_def)

subsection \<open>Unsealed records\<close>

text \<open>
  C9. After any number of steps of the fold from the initial context, a current record
  with \<open>sealed = false\<close> has empty metadata text and empty documentation text; and when
  the next node is an \<open>@annotate:\<close> directive that the entity phase accepts (the
  multi-reference branch, which starts the new record with empty texts), the new
  current record has the metadata and documentation text of the old one: no text is
  lost.
\<close>

theorem unsealed_record_has_no_text:
  assumes "reduce_from 0 initial ns = Inr c" and "current c = Some r"
  shows "(\<not> sealed r \<longrightarrow> meta r = [] \<and> doc r = []) \<and>
         (annotation c = Some EntityPhase \<and> step c (Entity x) (length ns) = Inr c' \<longrightarrow>
            (\<exists>r'. current c' = Some r' \<and> meta r' = meta r \<and> doc r' = doc r))"
proof -
  have "unsealed_empty initial" by (simp add: unsealed_empty_def initial_def)
  with assms(1) have "unsealed_empty c" by (rule reduce_from_unsealed_empty [rotated])
  with assms(2) have "\<not> sealed r \<longrightarrow> meta r = [] \<and> doc r = []"
    by (auto simp: unsealed_empty_def)
  with assms(2) show ?thesis
    by (auto split: if_splits)
qed

theorem unsealed_record_has_no_text_witness:
  "reduce_from 0 initial [Entity ''a''] =
     Inr \<lparr>annotation = Some EntityPhase,
          current = Some \<lparr>title = None, ref = Str ''a'', meta = [], doc = [],
                          multi = False, sealed = False\<rparr>,
          ast = []\<rparr> \<and>
   step \<lparr>annotation = Some EntityPhase,
          current = Some \<lparr>title = None, ref = Str ''a'', meta = [], doc = [],
                          multi = False, sealed = False\<rparr>,
          ast = []\<rparr> (Entity ''b'') 1 =
     Inr \<lparr>annotation = Some EntityPhase,
          current = Some \<lparr>title = None, ref = Arr [Str ''a'', Str ''b''], meta = [], doc = [],
                          multi = True, sealed = False\<rparr>,
          ast = []\<rparr>"
  using unsealed_record_has_no_text [of "[Entity ''a'']"
      "\<lparr>annotation = Some EntityPhase,
          current = Some \<lparr>title = None, ref = Str ''a'', meta = [], doc = [],
                          multi = False, sealed = False\<rparr>,
          ast = []\<rparr>"
      "\<lparr>title = None, ref = Str ''a'', meta = [], doc = [], multi = False, sealed = False\<rparr>"
      "''b''"]
  by (simp add: initial_def)

subsection \<open>Separators outside an annotation phase\<close>

lemma isSeparator_classified:
  "isSeparator l \<Longrightarrow> classifyLine l = Inr Separator"
  by (cases l) (auto simp: classifyLine_def isSeparator_def startsWith_def)

text \<open>
  C10. A line of three or more dashes classifies as a separator, which carries none of
  the line's text; met outside an annotation phase with a current record, it leaves
  the whole context as it is, and with it the record's reference, metadata text,
  documentation text and sealed flag.
\<close>

theorem separator_keeps_record:
  assumes "isSeparator l" and "annotation c = None" and "current c = Some r"
  shows "classifyLine l = Inr Separator \<and> step c Separator i = Inr c"
  using assms by (simp add: isSeparator_classified)

theorem separator_keeps_record_witness:
  "isSeparator ''-----'' \<and>
   classifyLine ''-----'' = Inr Separator \<and>
   step \<lparr>annotation = None,
          current = Some \<lparr>title = None, ref = Str ''a'', meta = ''\<newline>k: v'', doc = ''\<newline>text'',
                          multi = False, sealed = True\<rparr>,
          ast = []\<rparr> Separator 4 =
     Inr \<lparr>annotation = None,
          current = Some \<lparr>title = None, ref = Str ''a'', meta = ''\<newline>k: v'', doc = ''\<newline>text'',
                          multi = False, sealed = True\<rparr>,
          ast = []\<rparr>"
proof -
  have s: "isSeparator ''-----''" by code_simp
  from separator_keeps_record [OF s, of
      "\<lparr>annotation = None,
          current = Some \<lparr>title = None, ref = Str ''a'', meta = ''\<newline>k: v'', doc = ''\<newline>text'',
                          multi = False, sealed = True\<rparr>,
          ast = []\<rparr>"
      "\<lparr>title = None, ref = Str ''a'', meta = ''\<newline>k: v'', doc = ''\<newline>text'',
         multi = False, sealed = True\<rparr>" 4] s
  show ?thesis by simp
qed

end
